theory Spec2Isabelle
  imports Main "HOL-Library.Word" "HOL-Library.Multiset"
begin

section \<open>The Q\# side of the notebook\<close>

subsection \<open>Values and the simulator state\<close>

text \<open>
  The Q\# type \<open>Result\<close>: the outcome of a measurement, one of the two labels the notebook
  speaks of ("There is a 50\% probability of measuring either Zero or One").
\<close>

datatype Result = Zero | One

text \<open>
  The operations of the notebook act on one qubit at a time with \<open>H\<close>, \<open>M\<close> and \<open>Reset\<close>
  only. From the state a fresh qubit has, these reach four states (up to a global phase),
  and the set is closed under every gate used here: the two basis states and the two
  equal superpositions.
\<close>

datatype qstate = Ket0 | Ket1 | KetPlus | KetMinus

text \<open>
  What \<open>DumpMachine\<close> and \<open>Message\<close> emit: a dump of the allocated qubits, or a line of
  text.
\<close>

datatype event = Dump "(nat \<times> qstate) list" | Msg string

datatype error =
    QubitNotAllocated nat
  | ReleasedQubitNotZero nat
  | KeyError string

text \<open>
  The simulator: the allocated qubits with their states, the number of qubit ids handed
  out so far (ids below \<open>next_qubit\<close> are in use or free again), the source of measurement outcomes (\<open>coin k\<close> is the outcome of the \<open>k\<close>-th measurement of a
  qubit in superposition: \<open>True\<close> for \<open>One\<close>) with the number of outcomes drawn so far, and
  the events emitted.
\<close>

record sim =
  qubits :: "nat \<Rightarrow> qstate option"
  next_qubit :: nat
  coin :: "nat \<Rightarrow> bool"
  draws :: nat
  events :: "event list"

subsection \<open>Intrinsics\<close>

text \<open>
  \<open>use q = Qubit()\<close>: a qubit in the state \<open>|0>\<close>. Its id is the lowest one that is not
  in use, so the id of a released qubit is handed out again.
\<close>

definition free_id :: "sim \<Rightarrow> nat" where
  "free_id s =
     (case List.find (\<lambda>q. qubits s q = None) [0..<next_qubit s] of
        Some q \<Rightarrow> q
      | None \<Rightarrow> next_qubit s)"

definition allocate :: "sim \<Rightarrow> nat \<times> sim" where
  "allocate s =
     (free_id s,
      s\<lparr>qubits := (qubits s)(free_id s \<mapsto> Ket0),
        next_qubit := max (next_qubit s) (Suc (free_id s))\<rparr>)"

text \<open>
  The end of the scope of a \<open>use\<close>: the qubit is released, and it has to be in \<open>|0>\<close> then
  ("Reset the qubit so it can be safely released").
\<close>

definition release :: "nat \<Rightarrow> sim \<Rightarrow> error + sim" where
  "release q s =
     (case qubits s q of
        None \<Rightarrow> Inl (QubitNotAllocated q)
      | Some st \<Rightarrow>
          if st = Ket0 then Inr (s\<lparr>qubits := (qubits s)(q := None)\<rparr>)
          else Inl (ReleasedQubitNotZero q))"

fun hadamard :: "qstate \<Rightarrow> qstate" where
  "hadamard Ket0 = KetPlus"
| "hadamard Ket1 = KetMinus"
| "hadamard KetPlus = Ket0"
| "hadamard KetMinus = Ket1"

fun pauli_x :: "qstate \<Rightarrow> qstate" where
  "pauli_x Ket0 = Ket1"
| "pauli_x Ket1 = Ket0"
| "pauli_x KetPlus = KetPlus"
| "pauli_x KetMinus = KetMinus"

definition H :: "nat \<Rightarrow> sim \<Rightarrow> error + sim" where
  "H q s =
     (case qubits s q of
        None \<Rightarrow> Inl (QubitNotAllocated q)
      | Some st \<Rightarrow> Inr (s\<lparr>qubits := (qubits s)(q \<mapsto> hadamard st)\<rparr>))"

definition X :: "nat \<Rightarrow> sim \<Rightarrow> error + sim" where
  "X q s =
     (case qubits s q of
        None \<Rightarrow> Inl (QubitNotAllocated q)
      | Some st \<Rightarrow> Inr (s\<lparr>qubits := (qubits s)(q \<mapsto> pauli_x st)\<rparr>))"

definition outcome :: "bool \<Rightarrow> Result" where
  "outcome b = (if b then One else Zero)"

definition collapsed :: "Result \<Rightarrow> qstate" where
  "collapsed r = (case r of Zero \<Rightarrow> Ket0 | One \<Rightarrow> Ket1)"

text \<open>
  \<open>M\<close>: a measurement in the computational basis. A basis state gives its own label and
  stays; a superposition draws the next outcome from \<open>coin\<close> and collapses to it.
\<close>

definition M :: "nat \<Rightarrow> sim \<Rightarrow> error + (Result \<times> sim)" where
  "M q s =
     (case qubits s q of
        None \<Rightarrow> Inl (QubitNotAllocated q)
      | Some Ket0 \<Rightarrow> Inr (Zero, s)
      | Some Ket1 \<Rightarrow> Inr (One, s)
      | Some _ \<Rightarrow>
          (let r = outcome (coin s (draws s))
           in Inr (r, s\<lparr>qubits := (qubits s)(q \<mapsto> collapsed r), draws := Suc (draws s)\<rparr>)))"

text \<open>\<open>Reset\<close>: measure, and flip the qubit when the outcome is \<open>One\<close>.\<close>

definition Reset :: "nat \<Rightarrow> sim \<Rightarrow> error + sim" where
  "Reset q s =
     (case M q s of
        Inl e \<Rightarrow> Inl e
      | Inr (r, s') \<Rightarrow> if r = One then X q s' else Inr s')"

definition dump_state :: "sim \<Rightarrow> (nat \<times> qstate) list" where
  "dump_state s = List.map_filter (\<lambda>q. map_option (Pair q) (qubits s q)) [0..<next_qubit s]"

definition DumpMachine :: "sim \<Rightarrow> sim" where
  "DumpMachine s = s\<lparr>events := events s @ [Dump (dump_state s)]\<rparr>"

definition Message :: "string \<Rightarrow> sim \<Rightarrow> sim" where
  "Message txt s = s\<lparr>events := events s @ [Msg txt]\<rparr>"

fun show_Result :: "Result \<Rightarrow> string" where
  "show_Result Zero = ''Zero''"
| "show_Result One = ''One''"

subsection \<open>The operations the notebook defines\<close>

text \<open>
  A \<open>use\<close> block: allocate, run the body on the qubit, release at the end of the scope.
\<close>

definition use_qubit :: "(nat \<Rightarrow> sim \<Rightarrow> error + ('a \<times> sim)) \<Rightarrow> sim \<Rightarrow> error + ('a \<times> sim)" where
  "use_qubit body s =
     (case allocate s of
        (q, s1) \<Rightarrow>
          (case body q s1 of
             Inl e \<Rightarrow> Inl e
           | Inr (v, s2) \<Rightarrow>
               (case release q s2 of
                  Inl e \<Rightarrow> Inl e
                | Inr s3 \<Rightarrow> Inr (v, s3))))"

text \<open>The body of \<open>operation RandomBit() : Result\<close>, between allocation and release.\<close>

definition RandomBit_body :: "nat \<Rightarrow> sim \<Rightarrow> error + (Result \<times> sim)" where
  "RandomBit_body qubit s =
     (case H qubit s of
        Inl e \<Rightarrow> Inl e
      | Inr s1 \<Rightarrow>
          (case M qubit (DumpMachine s1) of
             Inl e \<Rightarrow> Inl e
           | Inr (result, s2) \<Rightarrow>
               (case Reset qubit
                       (Message (''The result of the measurement is '' @ show_Result result @ ''.'') s2) of
                  Inl e \<Rightarrow> Inl e
                | Inr s3 \<Rightarrow> Inr (result, s3))))"

definition RandomBit :: "sim \<Rightarrow> error + (Result \<times> sim)" where
  "RandomBit = use_qubit RandomBit_body"

text \<open>The body of \<open>operation Random() : Result\<close>.\<close>

definition Random_body :: "nat \<Rightarrow> sim \<Rightarrow> error + (Result \<times> sim)" where
  "Random_body q s =
     (case H q s of
        Inl e \<Rightarrow> Inl e
      | Inr s1 \<Rightarrow>
          (case M q s1 of
             Inl e \<Rightarrow> Inl e
           | Inr (result, s2) \<Rightarrow>
               (case Reset q s2 of
                  Inl e \<Rightarrow> Inl e
                | Inr s3 \<Rightarrow> Inr (result, s3))))"

definition Random :: "sim \<Rightarrow> error + (Result \<times> sim)" where
  "Random = use_qubit Random_body"

text \<open>
  \<open>operation RandomNBits(N: Int): Result[]\<close>. A Q\# \<open>Int\<close> is a 64-bit signed integer, so
  \<open>N - 1\<close> is a subtraction on 64-bit words; the range \<open>0 .. N - 1\<close> holds the integers from
  0 up to the signed value of \<open>N - 1\<close>, and is empty when that is below 0. The loop calls
  \<open>Random\<close> once for each element and appends the outcome to \<open>results\<close>.
\<close>

type_synonym Int64 = "64 word"

definition range_values :: "Int64 \<Rightarrow> Int64 \<Rightarrow> int list" where
  "range_values lo hi = [sint lo .. sint hi]"

fun RandomNBits_loop :: "int list \<Rightarrow> Result list \<Rightarrow> sim \<Rightarrow> error + (Result list \<times> sim)" where
  "RandomNBits_loop [] results s = Inr (results, s)"
| "RandomNBits_loop (i # rest) results s =
     (case Random s of
        Inl e \<Rightarrow> Inl e
      | Inr (r, s') \<Rightarrow> RandomNBits_loop rest (results @ [r]) s')"

definition RandomNBits :: "Int64 \<Rightarrow> sim \<Rightarrow> error + (Result list \<times> sim)" where
  "RandomNBits N s = RandomNBits_loop (range_values 0 (N - 1)) [] s"

text \<open>The length of the array an invocation returned, when it returned one.\<close>

fun returned_length :: "error + (Result list \<times> sim) \<Rightarrow> nat option" where
  "returned_length (Inl e) = None"
| "returned_length (Inr (results, s)) = Some (length results)"

text \<open>
  A simulator at the start of a session: no qubit allocated, no event emitted, and
  measurement outcomes that alternate, beginning with \<open>One\<close>.
\<close>

definition sim0 :: sim where
  "sim0 = \<lparr>qubits = (\<lambda>q. None), next_qubit = 0, coin = (\<lambda>k. even k), draws = 0, events = []\<rparr>"

text \<open>
  A simulator with the same source of measurement outcomes as \<open>sim0\<close>, at the same
  position, and otherwise different: a qubit is in use, in the state \<open>|1>\<close>, and an event
  has been emitted.
\<close>

definition sim1 :: sim where
  "sim1 = \<lparr>qubits = (\<lambda>q. if q = 0 then Some Ket1 else None), next_qubit = 1,
            coin = (\<lambda>k. even k), draws = 0, events = [Msg ''earlier'']\<rparr>"



section \<open>The Python side of the notebook\<close>

text \<open>
  The Python values the cells handle: a measurement outcome (\<open>qsharp.Result.Zero\<close>,
  \<open>qsharp.Result.One\<close>) and the events saved for a shot. A record of a shot is a
  dictionary from field names to such values.
\<close>

datatype pyval = PyResult Result | PyEvents "event list"

type_synonym shot_record = "(string \<times> pyval) list"

text \<open>
  The conversion of the single-shot cell:
  \<^verbatim>\<open>if r == qsharp.Result.One: i = 1 else: i = 0\<close>
\<close>

definition result_to_int :: "pyval \<Rightarrow> int" where
  "result_to_int r = (if r = PyResult One then 1 else 0)"

text \<open>\<open>entry["result"]\<close>: the lookup raises \<open>KeyError\<close> when the field is absent.\<close>

definition getitem :: "shot_record \<Rightarrow> string \<Rightarrow> error + pyval" where
  "getitem entry k = (case map_of entry k of None \<Rightarrow> Inl (KeyError k) | Some v \<Rightarrow> Inr v)"

text \<open>
  \<^verbatim>\<open>results = [entry["result"] for entry in results]\<close>: the comprehension stops at the first
  lookup that raises.
\<close>

fun extract_results :: "shot_record list \<Rightarrow> error + pyval list" where
  "extract_results [] = Inr []"
| "extract_results (entry # rest) =
     (case getitem entry ''result'' of
        Inl e \<Rightarrow> Inl e
      | Inr v \<Rightarrow>
          (case extract_results rest of
             Inl e \<Rightarrow> Inl e
           | Inr vs \<Rightarrow> Inr (v # vs)))"

text \<open>
  Modelled from the spec: \<open>qsharp.run\<close>, the repeated-shot entry point of the quantum
  SDK, is called by the notebook and is not part of it. By the spec it evaluates the same
  operation once for each shot and collects, in order, one record for each shot: a mapping
  with the field \<open>"result"\<close> (the outcome of that shot) and the events of that shot. This
  is the call with \<open>save_events=True\<close>, the only one the notebook makes; a failing shot
  ends the run with its error.
\<close>

fun run_shots ::
  "(sim \<Rightarrow> error + (Result \<times> sim)) \<Rightarrow> nat \<Rightarrow> sim \<Rightarrow> error + (shot_record list \<times> sim)" where
  "run_shots oper 0 s = Inr ([], s)"
| "run_shots oper (Suc n) s =
     (case oper (s\<lparr>events := []\<rparr>) of
        Inl e \<Rightarrow> Inl e
      | Inr (r, s1) \<Rightarrow>
          (case run_shots oper n s1 of
             Inl e \<Rightarrow> Inl e
           | Inr (recs, s2) \<Rightarrow>
               Inr ([(''result'', PyResult r), (''events'', PyEvents (events s1))] # recs, s2)))"

definition run ::
  "(sim \<Rightarrow> error + (Result \<times> sim)) \<Rightarrow> int \<Rightarrow> sim \<Rightarrow> error + (shot_record list \<times> sim)" where
  "run oper shots s = run_shots oper (nat shots) s"

text \<open>The list a call of \<open>run\<close> hands back to the cell, without the simulator.\<close>

definition returned_records ::
  "error + (shot_record list \<times> sim) \<Rightarrow> error + shot_record list" where
  "returned_records res = (case res of Inl e \<Rightarrow> Inl e | Inr (recs, s) \<Rightarrow> Inr recs)"

text \<open>
  The two steps of the histogram cell together: the run, then the comprehension over the
  records it returned. An error of either step is the error of the whole.
\<close>

definition outcomes_of :: "error + (shot_record list \<times> sim) \<Rightarrow> error + pyval list" where
  "outcomes_of res =
     (case returned_records res of Inl e \<Rightarrow> Inl e | Inr recs \<Rightarrow> extract_results recs)"

text \<open>
  \<open>Counter(results)\<close> of Python's \<open>collections\<close>: one pass over the sequence, each element
  \<open>x\<close> doing \<open>d[x] = d.get(x, 0) + 1\<close> on a dictionary that keeps its keys in the order of
  their first insertion. The dictionary is an association list in that order.
\<close>

fun dict_incr :: "'a \<Rightarrow> ('a \<times> int) list \<Rightarrow> ('a \<times> int) list" where
  "dict_incr x [] = [(x, 1)]"
| "dict_incr x ((k, c) # d) = (if k = x then (k, c + 1) # d else (k, c) # dict_incr x d)"

definition Counter :: "'a list \<Rightarrow> ('a \<times> int) list" where
  "Counter xs = foldl (\<lambda>d x. dict_incr x d) [] xs"

section \<open>Properties\<close>

subsection \<open>The single-shot conversion\<close>

text \<open>
  C10. The integer the single-shot cell computes is 1 exactly when the outcome equals
  \<open>Result.One\<close>, it is 0 exactly in every other case, and so it is always 0 or 1.
\<close>

theorem result_to_int_spec:
  "(result_to_int r = 1) = (r = PyResult One)
   \<and> (result_to_int r = 0) = (r \<noteq> PyResult One)
   \<and> result_to_int r \<in> {0, 1}"
  by (simp add: result_to_int_def)

subsection \<open>Counting is independent of the order\<close>

lemma map_of_dict_incr:
  "map_of (dict_incr x d) =
     (map_of d)(x \<mapsto> (case map_of d x of None \<Rightarrow> 1 | Some c \<Rightarrow> c + 1))"
  by (induction d) (auto simp: fun_eq_iff)

lemma map_of_foldl_dict_incr:
  "map_of (foldl (\<lambda>d x. dict_incr x d) d xs) k =
     (if k \<in> set xs
      then Some ((case map_of d k of None \<Rightarrow> 0 | Some c \<Rightarrow> c) + int (count (mset xs) k))
      else map_of d k)"
proof (induction xs arbitrary: d)
  case Nil
  show ?case by simp
next
  case (Cons x xs)
  show ?case
    by (simp add: Cons.IH map_of_dict_incr split: option.split)
qed

lemma map_of_Counter:
  "map_of (Counter xs) k = (if k \<in> set xs then Some (int (count (mset xs) k)) else None)"
  by (simp add: Counter_def map_of_foldl_dict_incr)

lemma keys_dict_incr:
  "map fst (dict_incr x d) = (if x \<in> set (map fst d) then map fst d else map fst d @ [x])"
  by (induction d) force+

lemma distinct_keys_foldl:
  "distinct (map fst d) \<Longrightarrow> distinct (map fst (foldl (\<lambda>d x. dict_incr x d) d xs))"
  by (induction xs arbitrary: d) (simp_all add: keys_dict_incr)

lemma distinct_keys_Counter: "distinct (map fst (Counter xs))"
  by (simp add: Counter_def distinct_keys_foldl)

text \<open>
  C2. Counting is a function of the multiset of the labels only: a sequence and any
  permutation of it give the same mapping from label to count.
\<close>

theorem Counter_permutation:
  "mset ys = mset xs \<Longrightarrow> map_of (Counter ys) = map_of (Counter xs)"
proof
  fix k
  assume eq: "mset ys = mset xs"
  then have "set ys = set xs"
    by (rule mset_eq_setD)
  with eq show "map_of (Counter ys) k = map_of (Counter xs) k"
    by (simp add: map_of_Counter)
qed

theorem Counter_permutation_witness:
  "mset [One, Zero, One] = mset [Zero, One, One]
   \<and> map_of (Counter [One, Zero, One]) = map_of (Counter [Zero, One, One])"
proof -
  have h: "mset [One, Zero, One] = mset [Zero, One, One]"
    by simp
  from Counter_permutation [OF h] h show ?thesis
    by simp
qed

subsection \<open>Reset follows the measurement and precedes the release\<close>

lemma allocate_zero: "qubits (snd (allocate s)) (fst (allocate s)) = Some Ket0"
  by (simp add: allocate_def)

lemma allocate_source: "coin (snd (allocate s)) = coin s \<and> draws (snd (allocate s)) = draws s"
  by (simp add: allocate_def)

lemma RandomBit_body_steps:
  assumes "qubits s0 q = Some Ket0"
  shows "\<exists>s1 r s2 s3.
           H q s0 = Inr s1
         \<and> M q (DumpMachine s1) = Inr (r, s2)
         \<and> r = outcome (coin s0 (draws s0))
         \<and> qubits s2 q = Some (collapsed r)
         \<and> Reset q (Message (''The result of the measurement is '' @ show_Result r @ ''.'') s2) = Inr s3
         \<and> qubits s3 q = Some Ket0
         \<and> coin s3 = coin s0 \<and> draws s3 = Suc (draws s0)
         \<and> RandomBit_body q s0 = Inr (r, s3)"
  using assms
  by (auto simp: RandomBit_body_def H_def M_def Reset_def X_def DumpMachine_def Message_def
      outcome_def collapsed_def Let_def)

lemma Random_body_steps:
  assumes "qubits s0 q = Some Ket0"
  shows "\<exists>s1 r s2 s3.
           H q s0 = Inr s1
         \<and> M q s1 = Inr (r, s2)
         \<and> r = outcome (coin s0 (draws s0))
         \<and> qubits s2 q = Some (collapsed r)
         \<and> Reset q s2 = Inr s3
         \<and> qubits s3 q = Some Ket0
         \<and> coin s3 = coin s0 \<and> draws s3 = Suc (draws s0)
         \<and> Random_body q s0 = Inr (r, s3)"
  using assms
  by (auto simp: Random_body_def H_def M_def Reset_def X_def outcome_def collapsed_def Let_def)

lemma release_zero:
  "qubits s q = Some Ket0 \<Longrightarrow>
     \<exists>s'. release q s = Inr s' \<and> coin s' = coin s \<and> draws s' = draws s"
  by (simp add: release_def)

lemma use_qubit_result:
  "body (fst (allocate s)) (snd (allocate s)) = Inr (r, s3) \<Longrightarrow>
   release (fst (allocate s)) s3 = Inr s4 \<Longrightarrow> use_qubit body s = Inr (r, s4)"
  by (simp add: use_qubit_def split_beta)

lemma RandomBit_outcome:
  "\<exists>s'. RandomBit s = Inr (outcome (coin s (draws s)), s')
        \<and> coin s' = coin s \<and> draws s' = Suc (draws s)"
proof -
  obtain r s3 where b: "RandomBit_body (fst (allocate s)) (snd (allocate s)) = Inr (r, s3)"
    and r: "r = outcome (coin (snd (allocate s)) (draws (snd (allocate s))))"
    and z: "qubits s3 (fst (allocate s)) = Some Ket0"
    and c: "coin s3 = coin (snd (allocate s))" "draws s3 = Suc (draws (snd (allocate s)))"
    using RandomBit_body_steps [OF allocate_zero, of s] by blast
  obtain s4 where rel: "release (fst (allocate s)) s3 = Inr s4"
    and c4: "coin s4 = coin s3" "draws s4 = draws s3"
    using release_zero [OF z] by blast
  from use_qubit_result [of RandomBit_body s, OF b rel] r c c4 allocate_source [of s]
  show ?thesis
    by (simp add: RandomBit_def)
qed

lemma Random_outcome:
  "\<exists>s'. Random s = Inr (outcome (coin s (draws s)), s')
        \<and> coin s' = coin s \<and> draws s' = Suc (draws s)"
proof -
  obtain r s3 where b: "Random_body (fst (allocate s)) (snd (allocate s)) = Inr (r, s3)"
    and r: "r = outcome (coin (snd (allocate s)) (draws (snd (allocate s))))"
    and z: "qubits s3 (fst (allocate s)) = Some Ket0"
    and c: "coin s3 = coin (snd (allocate s))" "draws s3 = Suc (draws (snd (allocate s)))"
    using Random_body_steps [OF allocate_zero, of s] by blast
  obtain s4 where rel: "release (fst (allocate s)) s3 = Inr s4"
    and c4: "coin s4 = coin s3" "draws s4 = draws s3"
    using release_zero [OF z] by blast
  from use_qubit_result [of Random_body s, OF b rel] r c c4 allocate_source [of s]
  show ?thesis
    by (simp add: Random_def)
qed


lemma Random_total: "\<exists>r s'. Random s = Inr (r, s')"
  using Random_outcome [of s] by blast

lemma RandomNBits_loop_length:
  "\<exists>rs s'. RandomNBits_loop idxs acc s = Inr (rs, s') \<and> length rs = length acc + length idxs"
proof (induction idxs arbitrary: acc s)
  case Nil
  show ?case by simp
next
  case (Cons i rest)
  obtain r s1 where r: "Random s = Inr (r, s1)"
    using Random_total by blast
  from Cons.IH [of "acc @ [r]" s1] show ?case
    by (simp add: r)
qed

text \<open>
  C8. Every execution of \<open>RandomBit\<close> and of \<open>Random\<close>, from any simulator state and
  whatever the measurement gives, goes through these steps on the qubit it has allocated:
  \<open>H\<close>, then the measurement \<open>M\<close>, which gives the outcome the operation returns and
  leaves the qubit in the basis state of that outcome, then \<open>Reset\<close> on the state the
  measurement left, which puts the qubit in \<open>|0>\<close>; the body ends in the state \<open>Reset\<close>
  gave, and the release at the end of the scope finds the qubit in \<open>|0>\<close> and succeeds.
  \<open>RandomNBits\<close>, which allocates its qubits through \<open>Random\<close> only, never fails on a
  release either.
\<close>

theorem reset_after_measurement:
  "(\<exists>s1 r s2 s3 s4.
       H (fst (allocate s)) (snd (allocate s)) = Inr s1
     \<and> M (fst (allocate s)) (DumpMachine s1) = Inr (r, s2)
     \<and> r = outcome (coin s (draws s))
     \<and> qubits s2 (fst (allocate s)) = Some (collapsed r)
     \<and> Reset (fst (allocate s))
          (Message (''The result of the measurement is '' @ show_Result r @ ''.'') s2) = Inr s3
     \<and> qubits s3 (fst (allocate s)) = Some Ket0
     \<and> RandomBit_body (fst (allocate s)) (snd (allocate s)) = Inr (r, s3)
     \<and> release (fst (allocate s)) s3 = Inr s4
     \<and> RandomBit s = Inr (r, s4))
   \<and> (\<exists>s1 r s2 s3 s4.
       H (fst (allocate s)) (snd (allocate s)) = Inr s1
     \<and> M (fst (allocate s)) s1 = Inr (r, s2)
     \<and> r = outcome (coin s (draws s))
     \<and> qubits s2 (fst (allocate s)) = Some (collapsed r)
     \<and> Reset (fst (allocate s)) s2 = Inr s3
     \<and> qubits s3 (fst (allocate s)) = Some Ket0
     \<and> Random_body (fst (allocate s)) (snd (allocate s)) = Inr (r, s3)
     \<and> release (fst (allocate s)) s3 = Inr s4
     \<and> Random s = Inr (r, s4))
   \<and> (\<exists>rs s'. RandomNBits N s = Inr (rs, s'))"
proof -
  obtain s1 r s2 s3 where a:
    "H (fst (allocate s)) (snd (allocate s)) = Inr s1"
    "M (fst (allocate s)) (DumpMachine s1) = Inr (r, s2)"
    "r = outcome (coin s (draws s))"
    "qubits s2 (fst (allocate s)) = Some (collapsed r)"
    "Reset (fst (allocate s))
          (Message (''The result of the measurement is '' @ show_Result r @ ''.'') s2) = Inr s3"
    "qubits s3 (fst (allocate s)) = Some Ket0"
    "RandomBit_body (fst (allocate s)) (snd (allocate s)) = Inr (r, s3)"
    using RandomBit_body_steps [OF allocate_zero, of s] allocate_source [of s] by auto
  obtain s4 where a4: "release (fst (allocate s)) s3 = Inr s4"
    using release_zero [OF a(6)] by blast
  have a5: "RandomBit s = Inr (r, s4)"
    unfolding RandomBit_def by (rule use_qubit_result [of RandomBit_body s, OF a(7) a4])
  obtain t1 r' t2 t3 where b:
    "H (fst (allocate s)) (snd (allocate s)) = Inr t1"
    "M (fst (allocate s)) t1 = Inr (r', t2)"
    "r' = outcome (coin s (draws s))"
    "qubits t2 (fst (allocate s)) = Some (collapsed r')"
    "Reset (fst (allocate s)) t2 = Inr t3"
    "qubits t3 (fst (allocate s)) = Some Ket0"
    "Random_body (fst (allocate s)) (snd (allocate s)) = Inr (r', t3)"
    using Random_body_steps [OF allocate_zero, of s] allocate_source [of s] by auto
  obtain t4 where b4: "release (fst (allocate s)) t3 = Inr t4"
    using release_zero [OF b(6)] by blast
  have b5: "Random s = Inr (r', t4)"
    unfolding Random_def by (rule use_qubit_result [of Random_body s, OF b(7) b4])
  have c: "\<exists>rs s'. RandomNBits N s = Inr (rs, s')"
    using RandomNBits_loop_length [of "range_values 0 (N - 1)" "[]" s]
    unfolding RandomNBits_def by blast
  from a a4 a5 b b4 b5 c show ?thesis
    by blast
qed

subsection \<open>The length of the array of random bits\<close>

lemma sint_pred:
  fixes N :: Int64
  assumes "sint N \<noteq> - (2 ^ 63)"
  shows "sint (N - 1) = sint N - 1"
proof -
  have "- (2 ^ 63) \<le> sint N" and "sint N < 2 ^ 63"
    using sint_ge [of N] sint_lt [of N] by simp_all
  with assms have "- (2 ^ 63) \<le> sint N - 1" and "sint N - 1 < 2 ^ 63"
    by simp_all
  then show ?thesis
    by (simp add: sint_word_ariths signed_take_bit_int_eq_self)
qed

text \<open>
  C9. For every \<open>Int\<close> argument \<open>N\<close> other than the least 64-bit value \<open>-2^63\<close>, the range
  \<open>0 .. N - 1\<close> has \<open>max N 0\<close> elements, and \<open>RandomNBits N\<close> returns, without failing, an
  array of that length: \<open>N\<close> outcomes when \<open>N \<ge> 1\<close>, the empty array when \<open>N \<le> 0\<close>.
\<close>

theorem RandomNBits_length:
  assumes "sint N \<noteq> - (2 ^ 63)"
  shows "int (length (range_values 0 (N - 1))) = max (sint N) 0
         \<and> (\<exists>rs s'. RandomNBits N s = Inr (rs, s') \<and> int (length rs) = max (sint N) 0)"
proof -
  obtain rs s' where 1: "RandomNBits N s = Inr (rs, s')"
    and 2: "length rs = length (range_values 0 (N - 1))"
    using RandomNBits_loop_length [of "range_values 0 (N - 1)" "[]" s]
    by (auto simp: RandomNBits_def)
  have 3: "int (length (range_values 0 (N - 1))) = max (sint N) 0"
    by (simp add: range_values_def sint_pred [OF assms])
  with 1 2 show ?thesis by simp
qed

theorem RandomNBits_length_witness:
  "sint (4 :: Int64) \<noteq> - (2 ^ 63)
   \<and> int (length (range_values 0 ((4 :: Int64) - 1))) = max (sint (4 :: Int64)) 0
   \<and> (\<exists>rs s'. RandomNBits 4 sim0 = Inr (rs, s') \<and> int (length rs) = max (sint (4 :: Int64)) 0)
   \<and> returned_length (RandomNBits 4 sim0) = Some 4"
proof -
  have h: "sint (4 :: Int64) \<noteq> - (2 ^ 63)"
    by simp
  have v: "returned_length (RandomNBits 4 sim0) = Some 4"
    by code_simp
  from RandomNBits_length [OF h, of sim0] h v show ?thesis
    by blast
qed

text \<open>
  At the least 64-bit value the subtraction \<open>N - 1\<close> wraps around to \<open>2^63 - 1\<close>: the range
  \<open>0 .. N - 1\<close> is not empty, and the array returned has not the length \<open>max N 0 = 0\<close>.
\<close>

theorem RandomNBits_least_Int_counterexample:
  "returned_length (RandomNBits (- (2 ^ 63)) sim0) = Some (2 ^ 63)
   \<and> max (sint (- (2 ^ 63) :: Int64)) 0 = 0"
proof -
  obtain rs s' where 1: "RandomNBits (- (2 ^ 63)) sim0 = Inr (rs, s')"
    and 2: "length rs = length (range_values 0 (- (2 ^ 63) - 1))"
    using RandomNBits_loop_length [of "range_values 0 (- (2 ^ 63) - 1)" "[]" sim0]
    by (auto simp: RandomNBits_def)
  have "sint ((- (2 ^ 63) :: Int64) - 1) = 2 ^ 63 - 1"
    by simp
  then have "length (range_values 0 (- (2 ^ 63) - 1)) = 2 ^ 63"
    unfolding range_values_def length_upto by simp
  with 1 2 show ?thesis by simp
qed

subsection \<open>The records of a repeated-shot run\<close>


lemma run_shots_records:
  "run_shots oper n s = Inr (recs, s') \<Longrightarrow>
     length recs = n \<and> (\<forall>e \<in> set recs. \<exists>r. map_of e ''result'' = Some (PyResult r))"
proof (induction n arbitrary: s recs s')
  case 0
  then show ?case by auto
next
  case (Suc n)
  then show ?case
    by (fastforce split: sum.splits prod.splits)
qed

lemma extract_results_ok:
  "\<forall>e \<in> set recs. \<exists>r. map_of e ''result'' = Some (PyResult r) \<Longrightarrow>
     \<exists>outs. extract_results recs = Inr outs \<and> length outs = length recs
        \<and> (\<forall>v \<in> set outs. v = PyResult Zero \<or> v = PyResult One)"
proof (induction recs)
  case Nil
  show ?case by simp
next
  case (Cons e recs)
  then obtain r where r: "map_of e ''result'' = Some (PyResult r)"
    by auto
  from Cons obtain outs where o: "extract_results recs = Inr outs" "length outs = length recs"
    "\<forall>v \<in> set outs. v = PyResult Zero \<or> v = PyResult One"
    by auto
  have "PyResult r = PyResult Zero \<or> PyResult r = PyResult One"
    by (cases r) simp_all
  with r o show ?case
    by (simp add: getitem_def)
qed




text \<open>
  C7. Every record of the sequence that the repeated-shot run returns has the field
  \<open>"result"\<close>: the lookup \<open>entry["result"]\<close> is defined for every entry, and the extraction
  returns a list, one value for each record, without raising.
\<close>

theorem extraction_never_fails:
  assumes "returned_records (run oper N s) = Inr recs"
  shows "(\<forall>e \<in> set recs. \<exists>v. getitem e ''result'' = Inr v)
         \<and> (\<exists>outs. extract_results recs = Inr outs \<and> length outs = length recs)"
proof -
  from assms obtain s' where a: "run_shots oper (nat N) s = Inr (recs, s')"
    by (auto simp: returned_records_def run_def split: sum.splits)
  from run_shots_records [OF a]
  have b: "\<forall>e \<in> set recs. \<exists>r. map_of e ''result'' = Some (PyResult r)"
    by blast
  from extract_results_ok [OF b] b show ?thesis
    by (fastforce simp: getitem_def)
qed

theorem extraction_never_fails_witness:
  "\<exists>recs. returned_records (run RandomBit 2 sim0) = Inr recs
     \<and> recs =
         [[(''result'', PyResult One),
           (''events'', PyEvents [Dump [(0, KetPlus)], Msg ''The result of the measurement is One.''])],
          [(''result'', PyResult Zero),
           (''events'', PyEvents [Dump [(0, KetPlus)], Msg ''The result of the measurement is Zero.''])]]
     \<and> (\<forall>e \<in> set recs. \<exists>v. getitem e ''result'' = Inr v)
     \<and> (\<exists>outs. extract_results recs = Inr outs \<and> length outs = length recs)"
proof -
  have h: "returned_records (run RandomBit 2 sim0) =
     Inr [[(''result'', PyResult One),
           (''events'', PyEvents [Dump [(0, KetPlus)], Msg ''The result of the measurement is One.''])],
          [(''result'', PyResult Zero),
           (''events'', PyEvents [Dump [(0, KetPlus)], Msg ''The result of the measurement is Zero.''])]]"
    by code_simp
  from extraction_never_fails [OF h] h show ?thesis
    by blast
qed

subsection \<open>Two runs from the same random source\<close>

lemma run_shots_outcomes:
  assumes "\<And>s. \<exists>s'. oper s = Inr (outcome (coin s (draws s)), s')
              \<and> coin s' = coin s \<and> draws s' = Suc (draws s)"
  shows "\<exists>recs s'. run_shots oper n s = Inr (recs, s')
           \<and> extract_results recs =
               Inr (map (\<lambda>k. PyResult (outcome (coin s (draws s + k)))) [0..<n])"
proof (induction n arbitrary: s)
  case 0
  show ?case by simp
next
  case (Suc n)
  obtain s1 where a: "oper (s\<lparr>events := []\<rparr>) = Inr (outcome (coin s (draws s)), s1)"
    and c: "coin s1 = coin s" "draws s1 = Suc (draws s)"
    using assms [of "s\<lparr>events := []\<rparr>"] by auto
  obtain recs s2 where b: "run_shots oper n s1 = Inr (recs, s2)"
    and e: "extract_results recs =
               Inr (map (\<lambda>k. PyResult (outcome (coin s1 (draws s1 + k)))) [0..<n])"
    using Suc.IH [of s1] by blast
  have "[0..<Suc n] = 0 # map Suc [0..<n]"
    by (simp add: upt_conv_Cons map_Suc_upt del: upt_Suc)
  then have "map (\<lambda>k. PyResult (outcome (coin s (draws s + k)))) [0..<Suc n] =
      PyResult (outcome (coin s (draws s)))
        # map (\<lambda>k. PyResult (outcome (coin s1 (draws s1 + k)))) [0..<n]"
    by (simp add: c comp_def del: upt_Suc)
  with a b e show ?case
    by (simp add: getitem_def del: upt_Suc)
qed

lemma outcomes_of_run:
  assumes "\<And>s. \<exists>s'. oper s = Inr (outcome (coin s (draws s)), s')
              \<and> coin s' = coin s \<and> draws s' = Suc (draws s)"
  shows "outcomes_of (run oper N s) =
           Inr (map (\<lambda>k. PyResult (outcome (coin s (draws s + k)))) [0..<nat N])"
  using run_shots_outcomes [of oper "nat N" s, OF assms]
  by (auto simp: outcomes_of_def returned_records_def run_def)

text \<open>
  C6. The seed of the simulator is its source of measurement outcomes and the position in
  it. Two runs of the same operation, \<open>RandomBit\<close> or \<open>Random\<close>, from simulators that
  agree on the seed return identical outcome sequences, whatever else differs between the
  two simulators, and both runs do return a sequence.
\<close>

theorem seeded_runs_agree:
  assumes "coin s = coin t" and "draws s = draws t"
  shows "outcomes_of (run RandomBit N s) = outcomes_of (run RandomBit N t)
         \<and> outcomes_of (run Random N s) = outcomes_of (run Random N t)
         \<and> (\<exists>outs. outcomes_of (run RandomBit N s) = Inr outs)
         \<and> (\<exists>outs. outcomes_of (run Random N s) = Inr outs)"
  using assms by (simp add: outcomes_of_run [OF RandomBit_outcome] outcomes_of_run [OF Random_outcome])

theorem seeded_runs_agree_witness:
  "coin sim0 = coin sim1 \<and> draws sim0 = draws sim1
   \<and> outcomes_of (run RandomBit 3 sim0) = outcomes_of (run RandomBit 3 sim1)
   \<and> outcomes_of (run Random 3 sim0) = outcomes_of (run Random 3 sim1)
   \<and> outcomes_of (run RandomBit 3 sim0) = Inr [PyResult One, PyResult Zero, PyResult One]
   \<and> returned_records (run RandomBit 3 sim0) \<noteq> returned_records (run RandomBit 3 sim1)"
proof -
  have h1: "coin sim0 = coin sim1"
    by (simp add: sim0_def sim1_def)
  have h2: "draws sim0 = draws sim1"
    by (simp add: sim0_def sim1_def)
  have v: "outcomes_of (run RandomBit 3 sim0) = Inr [PyResult One, PyResult Zero, PyResult One]"
    by code_simp
  have d: "returned_records (run RandomBit 3 sim0) \<noteq> returned_records (run RandomBit 3 sim1)"
    by code_simp
  from seeded_runs_agree [OF h1 h2, of 3] h1 h2 v d show ?thesis
    by blast
qed

end
